theory Spec2Isabelle
  imports Main "HOL-Library.AList"
begin

section \<open>Air-quality crawler: strings, the outside world, the fetcher\<close>

text \<open>
  The program is \<^verbatim>\<open>src/air_quality_crawler.py\<close>, the class \<^verbatim>\<open>AirQualityCrawler\<close>.
  A Python \<^verbatim>\<open>str\<close> is a sequence of Unicode code points, so it is modelled as a list
  of naturals; \<open>ascii\<close> turns an ASCII literal into such a list.
\<close>

type_synonym pystr = "nat list"

definition ascii :: "string \<Rightarrow> pystr" where
  "ascii s = map of_char s"

text \<open>The characters \<^verbatim>\<open>str.strip()\<close> removes: the code points with \<^verbatim>\<open>str.isspace()\<close>.\<close>

definition isspace :: "nat \<Rightarrow> bool" where
  "isspace c = (c \<in> set [9, 10, 11, 12, 13, 28, 29, 30, 31, 32, 133, 160, 5760,
     8192, 8193, 8194, 8195, 8196, 8197, 8198, 8199, 8200, 8201, 8202,
     8232, 8233, 8239, 8287, 12288])"

definition strip :: "pystr \<Rightarrow> pystr" where
  "strip s = rev (dropWhile isspace (rev (dropWhile isspace s)))"

text \<open>\<^verbatim>\<open>s.startswith(p)\<close> and \<^verbatim>\<open>sub in s\<close>.\<close>

fun startswith :: "pystr \<Rightarrow> pystr \<Rightarrow> bool" where
  "startswith s [] = True"
| "startswith [] (p # ps) = False"
| "startswith (c # cs) (p # ps) = (c = p \<and> startswith cs ps)"

fun contains :: "pystr \<Rightarrow> pystr \<Rightarrow> bool" where
  "contains sub [] = (sub = [])"
| "contains sub (c # cs) = (startswith (c # cs) sub \<or> contains sub cs)"

subsection \<open>What the crawler prints, and what it does to the world\<close>

text \<open>
  Exceptions that the parsing code can meet: \<^verbatim>\<open>link["href"]\<close> on a tag without that
  attribute raises \<^verbatim>\<open>KeyError\<close> (on a string, \<^verbatim>\<open>TypeError\<close>), and the
  \<^verbatim>\<open>BeautifulSoup\<close> constructor may reject the markup.
\<close>

datatype exn = KeyError pystr | TypeError | ParserRejectedMarkup

text \<open>
  Every \<^verbatim>\<open>print\<close> of the methods modelled here is a constructor that carries the
  values the format string interpolates.
\<close>

datatype message =
    RequestFailed int pystr
  | RequestError pystr pystr
  | Retrying nat
  | EmptyCityHtml
  | CityParseError exn
  | EmptyStationHtml pystr
  | NoTable pystr
  | TableTooShort pystr
  | StationParseError pystr exn
  | Phase2Banner
  | ResultsHeading
  | NoCities
  | CrawlingAll nat
  | Progress nat nat pystr pystr
  | PageFailed pystr
  | NoStations pystr
  | StationCount pystr nat
  | StationLine nat pystr "(pystr \<times> pystr) list"

text \<open>
  The effects, in the order they happen: the jittered pause
  \<^verbatim>\<open>time.sleep(random.uniform(0.5, 1.5))\<close>, one \<^verbatim>\<open>requests.get\<close>, the
  back-off pause \<^verbatim>\<open>time.sleep(2 ** retries)\<close> with its duration, and a print.
\<close>

datatype event = Jitter | Get pystr | Backoff nat | Print message

text \<open>
  \<^verbatim>\<open>requests.get\<close> either returns a response (status code and decoded text) or raises
  a \<^verbatim>\<open>RequestException\<close>, the only exception class that library raises on its own.
\<close>

datatype response = Response int pystr | RequestException pystr

record world =
  sent :: nat
  trace :: "event list"

subsection \<open>The parsed page\<close>

text \<open>
  A \<^verbatim>\<open>bs4\<close> tree: a tag has a name, its attributes and its children; a
  \<^verbatim>\<open>NavigableString\<close> is a piece of text. The root of a parsed page is the
  \<^verbatim>\<open>BeautifulSoup\<close> object, itself a tag.
\<close>

datatype node = Tag pystr "(pystr \<times> pystr) list" "node list" | NavigableString pystr

text \<open>
  The libraries the crawler calls are parameters: the answer of the \<open>k\<close>-th
  \<^verbatim>\<open>requests.get\<close> of the run to a URL, the HTML parser, and \<^verbatim>\<open>urllib.parse.urljoin\<close>.
\<close>

record externals =
  requests_get :: "nat \<Rightarrow> pystr \<Rightarrow> response"
  BeautifulSoup :: "pystr \<Rightarrow> exn + node"
  urljoin :: "pystr \<Rightarrow> pystr \<Rightarrow> pystr"

definition say :: "message \<Rightarrow> world \<Rightarrow> world" where
  "say m w = w\<lparr>trace := trace w @ [Print m]\<rparr>"

definition pause :: "event \<Rightarrow> world \<Rightarrow> world" where
  "pause e w = w\<lparr>trace := trace w @ [e]\<rparr>"

subsection \<open>get_html\<close>

definition max_retries :: nat where
  "max_retries = 3"

definition base_url :: pystr where
  "base_url = ascii ''https://www.air-level.com''"

text \<open>One pass through the \<^verbatim>\<open>try\<close> block up to the answer of \<^verbatim>\<open>requests.get\<close>.\<close>

definition attempt :: "externals \<Rightarrow> pystr \<Rightarrow> world \<Rightarrow> response \<times> world" where
  "attempt ext url w =
     (requests_get ext (sent w) url,
      w\<lparr>sent := Suc (sent w), trace := trace w @ [Jitter, Get url]\<rparr>)"

text \<open>
  \<^verbatim>\<open>get_html(url, retries)\<close>: the body on status 200; otherwise a message, and while
  \<^verbatim>\<open>retries < self.max_retries\<close> the back-off pause and the recursive call;
  \<^verbatim>\<open>None\<close> at the end.
\<close>

function get_html :: "externals \<Rightarrow> pystr \<Rightarrow> nat \<Rightarrow> world \<Rightarrow> pystr option \<times> world" where
  "get_html ext url retries w =
     (case attempt ext url w of
        (Response status body, w1) \<Rightarrow>
          if status = 200 then (Some body, w1)
          else if retries < max_retries
            then get_html ext url (retries + 1)
                   (pause (Backoff (2 ^ retries))
                      (say (Retrying (retries + 1)) (say (RequestFailed status url) w1)))
            else (None, say (RequestFailed status url) w1)
      | (RequestException e, w1) \<Rightarrow>
          if retries < max_retries
            then get_html ext url (retries + 1)
                   (pause (Backoff (2 ^ retries))
                      (say (Retrying (retries + 1)) (say (RequestError e url) w1)))
            else (None, say (RequestError e url) w1))"
  by pat_completeness auto
termination
  by (relation "measure (\<lambda>(ext, url, retries, w). max_retries - retries)") auto

declare get_html.simps [simp del]

section \<open>Searching the parsed page\<close>

text \<open>\<^verbatim>\<open>tag.text\<close>: the strings below the tag, concatenated in document order.\<close>

fun text_of :: "node \<Rightarrow> pystr" where
  "text_of (NavigableString s) = s"
| "text_of (Tag n attrs cs) = concat (map text_of cs)"

text \<open>
  \<^verbatim>\<open>tag.string\<close>: the single string child, looked for through single tag children;
  \<^verbatim>\<open>None\<close> when a tag on the way has no child or several.
\<close>

fun string_of :: "node \<Rightarrow> pystr option" where
  "string_of (NavigableString s) = Some s"
| "string_of (Tag n attrs [c]) = string_of c"
| "string_of (Tag n attrs cs) = None"

text \<open>\<^verbatim>\<open>node[key]\<close>: the attribute of a tag, or \<^verbatim>\<open>KeyError\<close>.\<close>

fun getitem :: "node \<Rightarrow> pystr \<Rightarrow> exn + pystr" where
  "getitem (Tag n attrs cs) key =
     (case map_of attrs key of None \<Rightarrow> Inl (KeyError key) | Some v \<Rightarrow> Inr v)"
| "getitem (NavigableString s) key = Inl TypeError"

text \<open>Everything below a node, in document order (a node before what it contains).\<close>

fun descendants :: "node \<Rightarrow> node list" where
  "descendants (NavigableString s) = []"
| "descendants (Tag n attrs cs) = concat (map (\<lambda>c. c # descendants c) cs)"

fun is_named :: "pystr list \<Rightarrow> node \<Rightarrow> bool" where
  "is_named names (Tag n attrs cs) = (n \<in> set names)"
| "is_named names (NavigableString s) = False"

text \<open>\<^verbatim>\<open>node.find_all(names)\<close> and \<^verbatim>\<open>node.find(name)\<close>.\<close>

definition find_all :: "pystr list \<Rightarrow> node \<Rightarrow> node list" where
  "find_all names n = filter (is_named names) (descendants n)"

definition find_first :: "pystr \<Rightarrow> node \<Rightarrow> node option" where
  "find_first name n = (case find_all [name] n of [] \<Rightarrow> None | x # xs \<Rightarrow> Some x)"

text \<open>\<^verbatim>\<open>re.match(r"^[A-Z]\.", s)\<close>: a capital ASCII letter, then a full stop.\<close>

fun letter_marker :: "pystr \<Rightarrow> bool" where
  "letter_marker (a # b # s) = (65 \<le> a \<and> a \<le> 90 \<and> b = 46)"
| "letter_marker s = False"

text \<open>
  The filter of \<^verbatim>\<open>soup.find_all("p", string=lambda text: text and re.match(..., text.strip()))\<close>:
  a \<^verbatim>\<open>p\<close> tag whose \<^verbatim>\<open>.string\<close> is there, is not empty and, stripped, starts
  with a letter marker.
\<close>

definition is_letter_paragraph :: "node \<Rightarrow> bool" where
  "is_letter_paragraph c =
     (is_named [ascii ''p''] c \<and>
      (case string_of c of None \<Rightarrow> False | Some t \<Rightarrow> t \<noteq> [] \<and> letter_marker (strip t)))"

text \<open>
  \<^verbatim>\<open>p.parent\<close> for every letter paragraph \<^verbatim>\<open>p\<close> below a node, in document order:
  a parent that holds several letter paragraphs is listed once for each.
\<close>

fun letter_sections :: "node \<Rightarrow> node list" where
  "letter_sections (NavigableString s) = []"
| "letter_sections (Tag n attrs cs) =
     concat (map (\<lambda>c. (if is_letter_paragraph c then [Tag n attrs cs] else []) @ letter_sections c) cs)"

definition key_cities :: pystr where
  "key_cities = [37325, 28857, 22478, 24066]"

text \<open>
  \<^verbatim>\<open>soup.find(string=lambda text: text and "..." in text)\<close> followed by
  \<^verbatim>\<open>.parent.find_next_siblings()\<close>. The second argument is what is left to scan of the
  children of a tag, the first is what follows that tag among its own siblings; the first
  string in document order that holds the key-cities heading decides.
\<close>

fun key_cities_siblings :: "node list \<Rightarrow> node list \<Rightarrow> node list option" where
  "key_cities_siblings after [] = None"
| "key_cities_siblings after (NavigableString s # rest) =
     (if s \<noteq> [] \<and> contains key_cities s then Some after
      else key_cities_siblings after rest)"
| "key_cities_siblings after (Tag n attrs cs # rest) =
     (case key_cities_siblings rest cs of
        Some sibs \<Rightarrow> Some sibs
      | None \<Rightarrow> key_cities_siblings after rest)"

fun is_tag :: "node \<Rightarrow> bool" where
  "is_tag (Tag n attrs cs) = True"
| "is_tag (NavigableString s) = False"

fun contents :: "node \<Rightarrow> node list" where
  "contents (Tag n attrs cs) = cs"
| "contents (NavigableString s) = []"

section \<open>parse_cities\<close>

type_synonym city = "pystr \<times> pystr"

text \<open>
  The inner loop of the first heuristic: name and \<^verbatim>\<open>href\<close> of every link, appended
  as they come.
\<close>

fun append_links :: "node list \<Rightarrow> city list \<Rightarrow> exn + city list" where
  "append_links [] cities = Inr cities"
| "append_links (link # links) cities =
     (case getitem link (ascii ''href'') of
        Inl e \<Rightarrow> Inl e
      | Inr city_url \<Rightarrow> append_links links (cities @ [(strip (text_of link), city_url)]))"

text \<open>
  The inner loop of the second and third heuristic: the same, behind
  \<^verbatim>\<open>if not any(name == city_name for name, _ in cities)\<close>.
\<close>

fun append_new_links :: "node list \<Rightarrow> city list \<Rightarrow> exn + city list" where
  "append_new_links [] cities = Inr cities"
| "append_new_links (link # links) cities =
     (case getitem link (ascii ''href'') of
        Inl e \<Rightarrow> Inl e
      | Inr city_url \<Rightarrow>
          append_new_links links
            (if strip (text_of link) \<in> set (map fst cities) then cities
             else cities @ [(strip (text_of link), city_url)]))"

text \<open>The links each heuristic visits, in the order of its loops.\<close>

definition letter_links :: "node \<Rightarrow> node list" where
  "letter_links soup = concat (map (find_all [ascii ''a'']) (letter_sections soup))"

definition key_cities_links :: "node \<Rightarrow> node list" where
  "key_cities_links soup =
     (case key_cities_siblings [] (contents soup) of
        None \<Rightarrow> []
      | Some sibs \<Rightarrow> concat (map (find_all [ascii ''a'']) (filter is_tag sibs)))"

definition row_links :: "node \<Rightarrow> node list" where
  "row_links table =
     concat (map (\<lambda>row. case find_first (ascii ''a'') row of None \<Rightarrow> [] | Some l \<Rightarrow> [l])
               (drop 1 (find_all [ascii ''tr''] table)))"

definition ranking_links :: "node \<Rightarrow> node list" where
  "ranking_links soup = concat (map row_links (find_all [ascii ''table''] soup))"

definition normalize :: "city \<Rightarrow> city" where
  "normalize c = (fst c, if startswith (snd c) (ascii ''/'') then snd c else ascii ''/'' @ snd c)"

text \<open>
  The three heuristics on the parsed page, one after the other on the same list
  \<^verbatim>\<open>cities\<close>; \<open>Inl\<close> is an exception raised on the way.
\<close>

definition collect_cities :: "node \<Rightarrow> exn + city list" where
  "collect_cities soup =
     (case append_links (letter_links soup) [] of
        Inl e \<Rightarrow> Inl e
      | Inr cities1 \<Rightarrow>
          (case append_new_links (key_cities_links soup) cities1 of
             Inl e \<Rightarrow> Inl e
           | Inr cities2 \<Rightarrow> append_new_links (ranking_links soup) cities2))"

text \<open>The \<^verbatim>\<open>try\<close> block of \<^verbatim>\<open>parse_cities\<close>: \<open>Inl\<close> is an exception that left it.\<close>

definition parse_cities_try :: "externals \<Rightarrow> pystr \<Rightarrow> exn + city list" where
  "parse_cities_try ext html =
     (case BeautifulSoup ext html of
        Inl e \<Rightarrow> Inl e
      | Inr soup \<Rightarrow>
          (case collect_cities soup of
             Inl e \<Rightarrow> Inl e
           | Inr cities \<Rightarrow> Inr (map normalize cities)))"

text \<open>\<^verbatim>\<open>not html\<close>: the argument is \<^verbatim>\<open>None\<close> or the empty string.\<close>

fun falsy :: "pystr option \<Rightarrow> bool" where
  "falsy None = True"
| "falsy (Some s) = (s = [])"

text \<open>\<^verbatim>\<open>parse_cities(html)\<close>: the list it returns and the lines it prints.\<close>

definition parse_cities :: "externals \<Rightarrow> pystr option \<Rightarrow> city list \<times> message list" where
  "parse_cities ext html =
     (case html of
        None \<Rightarrow> ([], [EmptyCityHtml])
      | Some markup \<Rightarrow>
          if falsy html then ([], [EmptyCityHtml])
          else (case parse_cities_try ext markup of
                  Inl e \<Rightarrow> ([], [CityParseError e])
                | Inr cities \<Rightarrow> (cities, [])))"

section \<open>parse_stations\<close>

text \<open>A station is a Python \<^verbatim>\<open>dict\<close>: keys with their values, in insertion order.\<close>

type_synonym station = "(pystr \<times> pystr) list"

definition k_station :: pystr where
  "k_station = [30417, 27979, 31449]"

definition k_aqi :: pystr where
  "k_aqi = ascii ''AQI''"

definition k_level :: pystr where
  "k_level = [31354, 27668, 36136, 37327, 31561, 32423]"

definition k_pm25 :: pystr where
  "k_pm25 = ascii ''PM2.5''"

definition k_pm10 :: pystr where
  "k_pm10 = ascii ''PM10''"

definition k_pollutant :: pystr where
  "k_pollutant = [39318, 35201, 27745, 26579, 29289]"

definition not_available :: pystr where
  "not_available = ascii ''N/A''"

text \<open>\<^verbatim>\<open>col.text.strip()\<close>.\<close>

definition cell :: "node \<Rightarrow> pystr" where
  "cell col = strip (text_of col)"

text \<open>
  \<^verbatim>\<open>for i, col in enumerate(cols): if i < len(headers): station_data[headers[i]] = ...\<close>,
  from index \<open>i\<close> on.
\<close>

fun fill_station :: "pystr list \<Rightarrow> nat \<Rightarrow> node list \<Rightarrow> station \<Rightarrow> station" where
  "fill_station headers i [] station_data = station_data"
| "fill_station headers i (col # cols) station_data =
     fill_station headers (Suc i) cols
       (if i < length headers then AList.update (headers ! i) (cell col) station_data
        else station_data)"

text \<open>The default column names, for a row of at least three cells.\<close>

definition default_station :: "node list \<Rightarrow> station" where
  "default_station cols =
     [(k_station, cell (cols ! 0)),
      (k_aqi, cell (cols ! 1)),
      (k_level, cell (cols ! 2)),
      (k_pm25, if 3 < length cols then cell (cols ! 3) else not_available),
      (k_pm10, if 4 < length cols then cell (cols ! 4) else not_available),
      (k_pollutant, if 5 < length cols then cell (cols ! 5) else not_available)]"

definition station_of_row :: "pystr list \<Rightarrow> node list \<Rightarrow> station" where
  "station_of_row headers cols =
     (let station_data = fill_station headers 0 cols []
      in if station_data = [] then default_station cols else station_data)"

text \<open>\<^verbatim>\<open>for row in rows[1:]\<close>, with the list of stations so far.\<close>

fun stations_of_rows :: "pystr list \<Rightarrow> node list \<Rightarrow> station list \<Rightarrow> station list" where
  "stations_of_rows headers [] stations = stations"
| "stations_of_rows headers (row # rows) stations =
     stations_of_rows headers rows
       (if 3 \<le> length (find_all [ascii ''td''] row)
        then stations @ [station_of_row headers (find_all [ascii ''td''] row)]
        else stations)"

text \<open>What \<^verbatim>\<open>parse_stations\<close> does with the parsed page.\<close>

definition stations_of_soup :: "node \<Rightarrow> pystr \<Rightarrow> station list \<times> message list" where
  "stations_of_soup soup city_name =
     (case find_all [ascii ''table''] soup of
        [] \<Rightarrow> ([], [NoTable city_name])
      | table # tables \<Rightarrow>
          (let rows = find_all [ascii ''tr''] table
           in if length rows \<le> 1 then ([], [TableTooShort city_name])
              else (stations_of_rows
                      (map cell (find_all [ascii ''th'', ascii ''td''] (rows ! 0)))
                      (drop 1 rows) [], [])))"

text \<open>The \<^verbatim>\<open>try\<close> block of \<^verbatim>\<open>parse_stations\<close>.\<close>

definition parse_stations_try :: "externals \<Rightarrow> pystr \<Rightarrow> pystr \<Rightarrow> exn + station list \<times> message list" where
  "parse_stations_try ext html city_name =
     (case BeautifulSoup ext html of
        Inl e \<Rightarrow> Inl e
      | Inr soup \<Rightarrow> Inr (stations_of_soup soup city_name))"

definition parse_stations :: "externals \<Rightarrow> pystr option \<Rightarrow> pystr \<Rightarrow> station list \<times> message list" where
  "parse_stations ext html city_name =
     (case html of
        None \<Rightarrow> ([], [EmptyStationHtml city_name])
      | Some markup \<Rightarrow>
          if falsy html then ([], [EmptyStationHtml city_name])
          else (case parse_stations_try ext markup city_name of
                  Inl e \<Rightarrow> ([], [StationParseError city_name e])
                | Inr found \<Rightarrow> found))"

section \<open>crawl_phase2\<close>

definition says :: "message list \<Rightarrow> world \<Rightarrow> world" where
  "says ms w = w\<lparr>trace := trace w @ map Print ms\<rparr>"

text \<open>The line printed for the \<open>j\<close>-th station of a city.\<close>

definition station_line :: "nat \<Rightarrow> station \<Rightarrow> message" where
  "station_line j station =
     StationLine j
       (case map_of station k_station of None \<Rightarrow> not_available | Some v \<Rightarrow> v)
       (concat (map (\<lambda>key. case map_of station key of None \<Rightarrow> [] | Some v \<Rightarrow> [(key, v)])
                  [k_aqi, k_level, k_pm25, k_pm10, k_pollutant]))"

definition station_lines :: "station list \<Rightarrow> message list" where
  "station_lines stations =
     map (\<lambda>(j, station). station_line j station) (zip [1 ..< Suc (length stations)] stations)"

text \<open>
  The body of the loop over the cities, for the \<open>i\<close>-th of \<open>n_total\<close>: it takes
  \<^verbatim>\<open>all_stations\<close> and the world and gives them back; each \<^verbatim>\<open>continue\<close> leaves
  \<^verbatim>\<open>all_stations\<close> as it was.
\<close>

definition crawl_city ::
  "externals \<Rightarrow> nat \<Rightarrow> nat \<Rightarrow> city \<Rightarrow> (pystr \<times> station list) list \<times> world
     \<Rightarrow> (pystr \<times> station list) list \<times> world" where
  "crawl_city ext n_total i c s =
     (case c of (city_name, city_url) \<Rightarrow>
      case s of (all_stations, w) \<Rightarrow>
      case get_html ext (urljoin ext base_url city_url) 0
             (say (Progress i n_total city_name (urljoin ext base_url city_url)) w)
      of (html, w1) \<Rightarrow>
        if falsy html then (all_stations, say (PageFailed city_name) w1)
        else (case parse_stations ext html city_name of (stations, msgs) \<Rightarrow>
          if stations = [] then (all_stations, say (NoStations city_name) (says msgs w1))
          else (AList.update city_name stations all_stations,
                says (StationCount city_name (length stations) # station_lines stations)
                  (says msgs w1))))"

fun crawl_loop ::
  "externals \<Rightarrow> nat \<Rightarrow> nat \<Rightarrow> city list \<Rightarrow> (pystr \<times> station list) list \<times> world
     \<Rightarrow> (pystr \<times> station list) list \<times> world" where
  "crawl_loop ext n_total i [] s = s"
| "crawl_loop ext n_total i (c # cs) s = crawl_loop ext n_total (Suc i) cs (crawl_city ext n_total i c s)"

text \<open>
  \<^verbatim>\<open>crawl_phase2(cities)\<close>: \<^verbatim>\<open>None\<close> for an empty list, otherwise the dictionary
  \<^verbatim>\<open>all_stations\<close>.
\<close>

definition crawl_phase2 ::
  "externals \<Rightarrow> city list \<Rightarrow> world \<Rightarrow> (pystr \<times> station list) list option \<times> world" where
  "crawl_phase2 ext cities w =
     (if cities = [] then (None, say NoCities (say ResultsHeading (say Phase2Banner w)))
      else (case crawl_loop ext (length cities) 1 cities
                   ([], say (CrawlingAll (length cities)) (say ResultsHeading (say Phase2Banner w)))
            of (all_stations, w') \<Rightarrow> (Some all_stations, w')))"

section \<open>Vocabulary of the properties\<close>

text \<open>
  A request has failed when it raised or its status is not 200; \<open>failure_report\<close> is the
  line \<^verbatim>\<open>get_html\<close> prints about it.
\<close>

definition failed :: "response \<Rightarrow> bool" where
  "failed r = (case r of Response status body \<Rightarrow> status \<noteq> 200 | RequestException e \<Rightarrow> True)"

definition failure_report :: "response \<Rightarrow> pystr \<Rightarrow> message" where
  "failure_report r url =
     (case r of Response status body \<Rightarrow> RequestFailed status url
      | RequestException e \<Rightarrow> RequestError e url)"

text \<open>A link on which \<^verbatim>\<open>link["href"]\<close> raises.\<close>

definition lacks_href :: "node \<Rightarrow> bool" where
  "lacks_href l = (case getitem l (ascii ''href'') of Inl e \<Rightarrow> True | Inr city_url \<Rightarrow> False)"

text \<open>The table \<^verbatim>\<open>parse_stations\<close> reads, the cell texts of a row, the rows it keeps.\<close>

definition first_table :: "node \<Rightarrow> node option" where
  "first_table soup =
     (case find_all [ascii ''table''] soup of [] \<Rightarrow> None | table # tables \<Rightarrow> Some table)"

definition cells :: "node \<Rightarrow> pystr list" where
  "cells row = map cell (find_all [ascii ''td''] row)"

definition data_rows :: "node list \<Rightarrow> node list" where
  "data_rows rows = filter (\<lambda>row. 3 \<le> length (cells row)) rows"

text \<open>
  What the visit of one city, begun in world \<open>w\<close>, obtains: the stations, when the page
  was fetched and the list extracted from it is not empty.
\<close>

definition city_outcome :: "externals \<Rightarrow> nat \<Rightarrow> nat \<Rightarrow> city \<Rightarrow> world \<Rightarrow> station list option" where
  "city_outcome ext n_total i c w =
     (case fst (get_html ext (urljoin ext base_url (snd c)) 0
                  (say (Progress i n_total (fst c) (urljoin ext base_url (snd c))) w)) of
        None \<Rightarrow> None
      | Some markup \<Rightarrow>
          if fst (parse_stations ext (Some markup) (fst c)) = [] then None
          else Some (fst (parse_stations ext (Some markup) (fst c))))"

text \<open>
  The outcome of every city of the list, in order; each visit begins in the world the one
  before it left.
\<close>

fun outcomes ::
  "externals \<Rightarrow> nat \<Rightarrow> nat \<Rightarrow> city list \<Rightarrow> world \<Rightarrow> (pystr \<times> station list option) list" where
  "outcomes ext n_total i [] w = []"
| "outcomes ext n_total i (c # cs) w =
     (fst c, city_outcome ext n_total i c w)
       # outcomes ext n_total (Suc i) cs (snd (crawl_city ext n_total i c ([], w)))"

definition phase2_outcomes ::
  "externals \<Rightarrow> city list \<Rightarrow> world \<Rightarrow> (pystr \<times> station list option) list" where
  "phase2_outcomes ext cities w =
     outcomes ext (length cities) 1 cities
       (say (CrawlingAll (length cities)) (say ResultsHeading (say Phase2Banner w)))"

fun successes :: "(pystr \<times> station list option) list \<Rightarrow> (pystr \<times> station list) list" where
  "successes [] = []"
| "successes ((name, None) # outs) = successes outs"
| "successes ((name, Some stations) # outs) = (name, stations) # successes outs"

subsection \<open>Pages and worlds to run the crawler on\<close>

text \<open>
  A stand-in for the parser that knows the tree of each listed markup and rejects any
  other, and a stand-in for the network that serves the listed URLs with status 200 and
  answers 404 elsewhere; \<open>replies\<close> answers the \<open>k\<close>-th request with the \<open>k\<close>-th
  response of a list.
\<close>

definition page_reader :: "(pystr \<times> node) list \<Rightarrow> pystr \<Rightarrow> exn + node" where
  "page_reader pages markup =
     (case map_of pages markup of None \<Rightarrow> Inl ParserRejectedMarkup | Some soup \<Rightarrow> Inr soup)"

definition website :: "(pystr \<times> pystr) list \<Rightarrow> (pystr \<times> node) list \<Rightarrow> externals" where
  "website served pages =
     \<lparr>requests_get = (\<lambda>k url. case map_of served url of None \<Rightarrow> Response 404 []
                                | Some markup \<Rightarrow> Response 200 markup),
      BeautifulSoup = page_reader pages,
      urljoin = (\<lambda>base rel. base @ rel)\<rparr>"

definition replies :: "response list \<Rightarrow> externals" where
  "replies rs =
     \<lparr>requests_get = (\<lambda>k url. if k < length rs then rs ! k else RequestException []),
      BeautifulSoup = page_reader [],
      urljoin = (\<lambda>base rel. base @ rel)\<rparr>"

definition start :: world where
  "start = \<lparr>sent = 0, trace = []\<rparr>"

definition document :: "node list \<Rightarrow> node" where
  "document cs = Tag (ascii ''[document]'') [] cs"

definition element :: "string \<Rightarrow> node list \<Rightarrow> node" where
  "element name cs = Tag (ascii name) [] cs"

definition link :: "string \<Rightarrow> string \<Rightarrow> node" where
  "link href label = Tag (ascii ''a'') [(ascii ''href'', ascii href)] [NavigableString (ascii label)]"

definition words :: "string \<Rightarrow> node" where
  "words s = NavigableString (ascii s)"

definition table_row :: "string \<Rightarrow> string list \<Rightarrow> node" where
  "table_row kind texts = element ''tr'' (map (\<lambda>t. element kind [words t]) texts)"

text \<open>Two letter paragraphs in one \<^verbatim>\<open>div\<close>, each followed by its city link.\<close>

definition letters_markup :: pystr where
  "letters_markup =
     ascii ''<div><p>A.</p><a href=anshan>Anshan</a><p>B.</p><a href=/beijing>Beijing</a></div>''"

definition letters_page :: node where
  "letters_page = document [element ''div''
     [element ''p'' [words ''A.''], link ''anshan'' ''Anshan'',
      element ''p'' [words ''B.''], link ''/beijing'' ''Beijing'']]"

text \<open>A letter section whose second link has no \<^verbatim>\<open>href\<close>.\<close>

definition anchor_markup :: pystr where
  "anchor_markup = ascii ''<div><p>A.</p><a href=/anshan>Anshan</a><a name=top>Top</a></div>''"

definition anchor_page :: node where
  "anchor_page = document [element ''div''
     [element ''p'' [words ''A.''], link ''/anshan'' ''Anshan'',
      Tag (ascii ''a'') [(ascii ''name'', ascii ''top'')] [words ''Top'']]]"

text \<open>Station tables: a header row alone; an empty header row; a label used twice.\<close>

definition header_only_markup :: pystr where
  "header_only_markup = ascii ''<table><tr><th>Station</th><th>AQI</th><th>Level</th></tr></table>''"

definition header_only_page :: node where
  "header_only_page = document [element ''table'' [table_row ''th'' [''Station'', ''AQI'', ''Level'']]]"

definition bare_markup :: pystr where
  "bare_markup = ascii
     ''<table><tr></tr><tr><td>S1</td><td>50</td><td>Good</td></tr><tr><td>S2</td><td>70</td></tr><tr><td>S3</td><td>90</td><td>Fair</td><td>60</td><td>80</td><td>PM10</td></tr></table>''"

definition bare_rows :: "node list" where
  "bare_rows =
     [table_row ''td'' [''S1'', ''50'', ''Good''], table_row ''td'' [''S2'', ''70''],
      table_row ''td'' [''S3'', ''90'', ''Fair'', ''60'', ''80'', ''PM10'']]"

definition bare_page :: node where
  "bare_page = document [element ''table'' (table_row ''th'' [] # bare_rows)]"

definition twice_markup :: pystr where
  "twice_markup = ascii
     ''<table><tr><th>Station</th><th>AQI</th><th>AQI</th></tr><tr><td>S1</td><td>50</td><td>60</td></tr></table>''"

definition twice_rows :: "node list" where
  "twice_rows = [table_row ''td'' [''S1'', ''50'', ''60'']]"

definition twice_page :: node where
  "twice_page = document
     [element ''table'' (table_row ''th'' [''Station'', ''AQI'', ''AQI''] # twice_rows)]"

definition station_markup :: pystr where
  "station_markup = ascii
     ''<table><tr><th>Station</th><th>AQI</th><th>Level</th></tr><tr><td>StationX</td><td>50</td><td>Good</td></tr></table>''"

definition station_page :: node where
  "station_page = document [element ''table''
     [table_row ''th'' [''Station'', ''AQI'', ''Level''], table_row ''td'' [''StationX'', ''50'', ''Good'']]]"

section \<open>Evaluating the model on a given page\<close>

lemmas page_simps = page_reader_def website_def replies_def start_def document_def element_def
  link_def words_def table_row_def ascii_def

lemmas search_simps = find_all_def find_first_def first_table_def is_letter_paragraph_def
  strip_def isspace_def cell_def cells_def data_rows_def

lemmas cities_simps = letter_links_def key_cities_links_def row_links_def ranking_links_def
  normalize_def collect_cities_def parse_cities_try_def parse_cities_def key_cities_def

lemmas stations_simps = stations_of_soup_def parse_stations_try_def parse_stations_def
  station_of_row_def default_station_def

section \<open>get_html: retries and back-off\<close>

lemma get_html_retry:
  assumes "failed (requests_get ext (sent w) url)" "retries < max_retries"
  shows "get_html ext url retries w =
     get_html ext url (Suc retries)
       (w\<lparr>sent := Suc (sent w),
          trace := trace w @
            [Jitter, Get url, Print (failure_report (requests_get ext (sent w) url) url),
             Print (Retrying (Suc retries)), Backoff (2 ^ retries)]\<rparr>)"
  using assms
  by (subst get_html.simps)
     (simp add: attempt_def failed_def failure_report_def say_def pause_def split: response.splits)

lemma get_html_give_up:
  assumes "failed (requests_get ext (sent w) url)" "\<not> retries < max_retries"
  shows "get_html ext url retries w =
     (None, w\<lparr>sent := Suc (sent w),
        trace := trace w @
          [Jitter, Get url, Print (failure_report (requests_get ext (sent w) url) url)]\<rparr>)"
  using assms
  by (subst get_html.simps)
     (simp add: attempt_def failed_def failure_report_def say_def pause_def split: response.splits)

lemma get_html_success:
  assumes "requests_get ext (sent w) url = Response 200 body"
  shows "get_html ext url retries w =
     (Some body, w\<lparr>sent := Suc (sent w), trace := trace w @ [Jitter, Get url]\<rparr>)"
  using assms
  by (subst get_html.simps) (simp add: attempt_def)

text \<open>
  C2. When every request for the URL fails (a status other than 200 or a
  \<^verbatim>\<open>RequestException\<close>), \<^verbatim>\<open>get_html(url)\<close> started with \<^verbatim>\<open>retries = 0\<close> makes
  four requests, each after the jittered pause, waits 1, 2 and 4 time units before the
  second, third and fourth, and returns \<^verbatim>\<open>None\<close>.
\<close>

theorem get_html_exhausts_retries:
  assumes "\<forall>k. failed (requests_get ext k url)"
  shows "get_html ext url 0 w =
     (None, w\<lparr>sent := sent w + 4,
        trace := trace w @
          [Jitter, Get url, Print (failure_report (requests_get ext (sent w) url) url),
           Print (Retrying 1), Backoff (2 ^ 0),
           Jitter, Get url, Print (failure_report (requests_get ext (sent w + 1) url) url),
           Print (Retrying 2), Backoff (2 ^ 1),
           Jitter, Get url, Print (failure_report (requests_get ext (sent w + 2) url) url),
           Print (Retrying 3), Backoff (2 ^ 2),
           Jitter, Get url, Print (failure_report (requests_get ext (sent w + 3) url) url)]\<rparr>)"
  using assms
  by (simp add: get_html_retry get_html_give_up max_retries_def eval_nat_numeral)

theorem get_html_exhausts_retries_witness:
  "get_html (replies []) (ascii ''/x'') 0 start =
     (None, \<lparr>sent = 4, trace =
          [Jitter, Get (ascii ''/x''), Print (RequestError [] (ascii ''/x'')),
           Print (Retrying 1), Backoff 1,
           Jitter, Get (ascii ''/x''), Print (RequestError [] (ascii ''/x'')),
           Print (Retrying 2), Backoff 2,
           Jitter, Get (ascii ''/x''), Print (RequestError [] (ascii ''/x'')),
           Print (Retrying 3), Backoff 4,
           Jitter, Get (ascii ''/x''), Print (RequestError [] (ascii ''/x''))]\<rparr>)"
proof -
  have "\<forall>k. failed (requests_get (replies []) k (ascii ''/x''))"
    by (simp add: replies_def failed_def)
  from get_html_exhausts_retries [OF this, of start] show ?thesis
    by (simp add: replies_def failure_report_def start_def)
qed

text \<open>
  C5. When the first two requests fail and the third is answered with status 200 and body
  \<open>body\<close>, \<^verbatim>\<open>get_html(url)\<close> started with \<^verbatim>\<open>retries = 0\<close> returns \<open>body\<close>; it has
  waited 1 time unit before the second request and 2 before the third, and the jittered
  pause comes before each of the three requests.
\<close>

theorem get_html_third_attempt:
  assumes "failed (requests_get ext (sent w) url)"
    and "failed (requests_get ext (sent w + 1) url)"
    and "requests_get ext (sent w + 2) url = Response 200 body"
  shows "get_html ext url 0 w =
     (Some body, w\<lparr>sent := sent w + 3,
        trace := trace w @
          [Jitter, Get url, Print (failure_report (requests_get ext (sent w) url) url),
           Print (Retrying 1), Backoff (2 ^ 0),
           Jitter, Get url, Print (failure_report (requests_get ext (sent w + 1) url) url),
           Print (Retrying 2), Backoff (2 ^ 1),
           Jitter, Get url]\<rparr>)"
  using assms
  by (simp add: get_html_retry get_html_success max_retries_def eval_nat_numeral)

theorem get_html_third_attempt_witness:
  "get_html (replies [Response 503 [], RequestException (ascii ''timeout''), Response 200 (ascii ''ok'')])
      (ascii ''/x'') 0 start =
     (Some (ascii ''ok''), \<lparr>sent = 3, trace =
          [Jitter, Get (ascii ''/x''), Print (RequestFailed 503 (ascii ''/x'')),
           Print (Retrying 1), Backoff 1,
           Jitter, Get (ascii ''/x''), Print (RequestError (ascii ''timeout'') (ascii ''/x'')),
           Print (Retrying 2), Backoff 2,
           Jitter, Get (ascii ''/x'')]\<rparr>)"
proof -
  let ?ext = "replies [Response 503 [], RequestException (ascii ''timeout''), Response 200 (ascii ''ok'')]"
  have 1: "failed (requests_get ?ext (sent start) (ascii ''/x''))"
    and 2: "failed (requests_get ?ext (sent start + 1) (ascii ''/x''))"
    and 3: "requests_get ?ext (sent start + 2) (ascii ''/x'') = Response 200 (ascii ''ok'')"
    by (simp_all add: replies_def failed_def start_def)
  from get_html_third_attempt [OF 1 2 3] show ?thesis
    by (simp add: replies_def failure_report_def start_def)
qed

section \<open>parse_cities: the list of cities\<close>

lemma normalize_rooted: "startswith (snd (normalize c)) (ascii ''/'')"
  by (simp add: normalize_def ascii_def)

lemma parse_cities_collected:
  assumes "markup \<noteq> []" "BeautifulSoup ext markup = Inr soup" "collect_cities soup = Inr cities"
  shows "parse_cities ext (Some markup) = (map normalize cities, [])"
  using assms by (simp add: parse_cities_def parse_cities_try_def)

text \<open>
  C7. Every pair of the list \<^verbatim>\<open>parse_cities\<close> returns has an \<^verbatim>\<open>href\<close> that starts
  with \<^verbatim>\<open>/\<close>; when the three heuristics collect \<open>cities\<close> from the page, the list
  returned is \<open>cities\<close> with \<^verbatim>\<open>/\<close> put before each \<^verbatim>\<open>href\<close> that does not start
  with it, and the other pairs as they are.
\<close>

theorem parse_cities_href_rooted:
  "(\<forall>c \<in> set (fst (parse_cities ext html)). startswith (snd c) (ascii ''/'')) \<and>
   (\<forall>markup soup cities.
      html = Some markup \<and> markup \<noteq> [] \<and> BeautifulSoup ext markup = Inr soup \<and>
      collect_cities soup = Inr cities \<longrightarrow>
      fst (parse_cities ext html) =
        map (\<lambda>c. (fst c, if startswith (snd c) (ascii ''/'') then snd c else ascii ''/'' @ snd c))
          cities)"
proof -
  have "startswith (snd c) (ascii ''/'')" if "c \<in> set (fst (parse_cities ext html))" for c
    using that
    by (auto simp: parse_cities_def parse_cities_try_def normalize_rooted
        split: option.splits sum.splits if_splits)
  moreover have "fst (parse_cities ext html) =
        map (\<lambda>c. (fst c, if startswith (snd c) (ascii ''/'') then snd c else ascii ''/'' @ snd c)) cities"
    if "html = Some markup" "markup \<noteq> []" "BeautifulSoup ext markup = Inr soup"
      "collect_cities soup = Inr cities" for markup soup cities
    using that parse_cities_collected [of markup ext soup cities]
    by (simp add: normalize_def [abs_def])
  ultimately show ?thesis by blast
qed

theorem parse_cities_href_rooted_witness:
  "collect_cities letters_page =
     Inr [(ascii ''Anshan'', ascii ''anshan''), (ascii ''Beijing'', ascii ''/beijing''),
          (ascii ''Anshan'', ascii ''anshan''), (ascii ''Beijing'', ascii ''/beijing'')]
   \<and> fst (parse_cities (website [] [(letters_markup, letters_page)]) (Some letters_markup)) =
     [(ascii ''Anshan'', ascii ''/anshan''), (ascii ''Beijing'', ascii ''/beijing''),
      (ascii ''Anshan'', ascii ''/anshan''), (ascii ''Beijing'', ascii ''/beijing'')]
   \<and> list_all (\<lambda>c. startswith (snd c) (ascii ''/''))
       (fst (parse_cities (website [] [(letters_markup, letters_page)]) (Some letters_markup)))"
  using parse_cities_href_rooted [of "website [] [(letters_markup, letters_page)]" "Some letters_markup"]
  by (simp add: page_simps search_simps cities_simps letters_markup_def letters_page_def)

text \<open>
  C1 (the code does otherwise). The first heuristic appends every link of a letter section
  without looking at the names collected so far. On a page whose \<^verbatim>\<open>div\<close> holds the
  paragraphs \<^verbatim>\<open>A.\<close> and \<^verbatim>\<open>B.\<close>, each followed by one city link, the \<^verbatim>\<open>div\<close> is the
  parent of both paragraphs, its two links are collected twice, and the list returned by
  \<^verbatim>\<open>parse_cities\<close> names each city twice.
\<close>

theorem parse_cities_repeats_names:
  "fst (parse_cities (website [] [(letters_markup, letters_page)]) (Some letters_markup)) =
     [(ascii ''Anshan'', ascii ''/anshan''), (ascii ''Beijing'', ascii ''/beijing''),
      (ascii ''Anshan'', ascii ''/anshan''), (ascii ''Beijing'', ascii ''/beijing'')]
   \<and> \<not> distinct (map fst
         (fst (parse_cities (website [] [(letters_markup, letters_page)]) (Some letters_markup))))"
  by (simp add: page_simps search_simps cities_simps letters_markup_def letters_page_def)

section \<open>Exceptions stay inside the parsers\<close>

text \<open>A link without \<^verbatim>\<open>href\<close> among those a heuristic visits makes the \<^verbatim>\<open>try\<close> block raise.\<close>

lemma append_links_raises:
  "\<exists>l \<in> set links. lacks_href l \<Longrightarrow> \<exists>e. append_links links cities = Inl e"
  by (induction links arbitrary: cities) (auto simp: lacks_href_def split: sum.splits)

lemma append_new_links_raises:
  "\<exists>l \<in> set links. lacks_href l \<Longrightarrow> \<exists>e. append_new_links links cities = Inl e"
  by (induction links arbitrary: cities) (auto simp: lacks_href_def split: sum.splits)

lemma collect_cities_raises:
  assumes "\<exists>l \<in> set (letter_links soup @ key_cities_links soup @ ranking_links soup). lacks_href l"
  shows "\<exists>e. collect_cities soup = Inl e"
proof (cases "append_links (letter_links soup) []")
  case (Inl e)
  then show ?thesis by (simp add: collect_cities_def)
next
  case (Inr cities1)
  then have 1: "\<not> (\<exists>l \<in> set (letter_links soup). lacks_href l)"
    using append_links_raises [of "letter_links soup" "[]"] by auto
  show ?thesis
  proof (cases "append_new_links (key_cities_links soup) cities1")
    case (Inl e)
    with Inr show ?thesis by (simp add: collect_cities_def)
  next
    case inr2: (Inr cities2)
    then have "\<not> (\<exists>l \<in> set (key_cities_links soup). lacks_href l)"
      using append_new_links_raises [of "key_cities_links soup" cities1] by auto
    with 1 assms have "\<exists>l \<in> set (ranking_links soup). lacks_href l" by auto
    from append_new_links_raises [OF this, of cities2] Inr inr2 show ?thesis
      by (simp add: collect_cities_def)
  qed
qed

text \<open>
  C6. An exception that leaves the \<^verbatim>\<open>try\<close> block of \<^verbatim>\<open>parse_cities\<close> or of
  \<^verbatim>\<open>parse_stations\<close> is caught: the method returns the empty list, whatever had been
  collected, and prints one line that names the exception. This is what happens when the
  parser rejects the markup, and when one of the links that the three heuristics visit
  has no \<^verbatim>\<open>href\<close>.
\<close>

theorem parse_exceptions_caught:
  "(markup \<noteq> [] \<and> parse_cities_try ext markup = Inl e
      \<longrightarrow> parse_cities ext (Some markup) = ([], [CityParseError e]))
   \<and> (markup \<noteq> [] \<and> parse_stations_try ext markup city_name = Inl e
      \<longrightarrow> parse_stations ext (Some markup) city_name = ([], [StationParseError city_name e]))
   \<and> (markup \<noteq> [] \<and> BeautifulSoup ext markup = Inl e
      \<longrightarrow> parse_cities ext (Some markup) = ([], [CityParseError e])
        \<and> parse_stations ext (Some markup) city_name = ([], [StationParseError city_name e]))
   \<and> (markup \<noteq> [] \<and> BeautifulSoup ext markup = Inr soup \<and>
        (\<exists>l \<in> set (letter_links soup @ key_cities_links soup @ ranking_links soup). lacks_href l)
      \<longrightarrow> (\<exists>e'. parse_cities ext (Some markup) = ([], [CityParseError e'])))"
proof (intro conjI impI)
  assume "markup \<noteq> [] \<and> BeautifulSoup ext markup = Inr soup \<and>
        (\<exists>l \<in> set (letter_links soup @ key_cities_links soup @ ranking_links soup). lacks_href l)"
  with collect_cities_raises [of soup]
  show "\<exists>e'. parse_cities ext (Some markup) = ([], [CityParseError e'])"
    by (auto simp: parse_cities_def parse_cities_try_def)
qed (simp_all add: parse_cities_def parse_stations_def parse_cities_try_def parse_stations_try_def)

theorem parse_exceptions_caught_witness:
  "append_links (take 1 (letter_links anchor_page)) [] = Inr [(ascii ''Anshan'', ascii ''/anshan'')]
   \<and> list_ex lacks_href (letter_links anchor_page)
   \<and> parse_cities_try (website [] [(anchor_markup, anchor_page)]) anchor_markup
       = Inl (KeyError (ascii ''href''))
   \<and> parse_cities (website [] [(anchor_markup, anchor_page)]) (Some anchor_markup)
       = ([], [CityParseError (KeyError (ascii ''href''))])
   \<and> parse_stations_try (website [] []) anchor_markup (ascii ''Anshan'') = Inl ParserRejectedMarkup
   \<and> parse_stations (website [] []) (Some anchor_markup) (ascii ''Anshan'')
       = ([], [StationParseError (ascii ''Anshan'') ParserRejectedMarkup])"
proof -
  let ?ext = "website [] [(anchor_markup, anchor_page)]"
  have 1: "anchor_markup \<noteq> [] \<and>
      parse_cities_try ?ext anchor_markup = Inl (KeyError (ascii ''href''))"
    by (simp add: page_simps search_simps cities_simps anchor_markup_def anchor_page_def)
  have 2: "anchor_markup \<noteq> [] \<and>
      parse_stations_try (website [] []) anchor_markup (ascii ''Anshan'') = Inl ParserRejectedMarkup"
    by (simp add: page_simps parse_stations_try_def anchor_markup_def)
  have 3: "append_links (take 1 (letter_links anchor_page)) [] = Inr [(ascii ''Anshan'', ascii ''/anshan'')]"
    by (simp add: page_simps search_simps cities_simps anchor_page_def)
  have 4: "list_ex lacks_href (letter_links anchor_page)"
    by (simp add: page_simps search_simps cities_simps anchor_page_def lacks_href_def)
  then have 5: "anchor_markup \<noteq> [] \<and> BeautifulSoup ?ext anchor_markup = Inr anchor_page \<and>
      (\<exists>l \<in> set (letter_links anchor_page @ key_cities_links anchor_page @ ranking_links anchor_page).
         lacks_href l)"
    using 1 by (auto simp: page_simps list_ex_iff)
  from 1 2 3 4 5
    parse_exceptions_caught [of anchor_markup ?ext "KeyError (ascii ''href'')" "ascii ''Anshan''" anchor_page]
    parse_exceptions_caught [of anchor_markup "website [] []" ParserRejectedMarkup "ascii ''Anshan''"]
  show ?thesis by blast
qed

section \<open>parse_stations: nothing to read\<close>

text \<open>
  C8. \<^verbatim>\<open>parse_stations\<close> returns the empty list when its argument is \<^verbatim>\<open>None\<close> or
  the empty string, when the parsed page has no table, and when \<^verbatim>\<open>find_all("tr")\<close> on
  its first table gives one row or none.
\<close>

theorem parse_stations_nothing_to_read:
  assumes "falsy html \<or>
     (\<exists>markup soup. html = Some markup \<and> BeautifulSoup ext markup = Inr soup \<and>
        (case first_table soup of None \<Rightarrow> True
         | Some table \<Rightarrow> length (find_all [ascii ''tr''] table) \<le> 1))"
  shows "fst (parse_stations ext html city_name) = []"
  using assms
  by (auto simp: parse_stations_def parse_stations_try_def stations_of_soup_def first_table_def
      split: option.splits list.splits sum.splits)

theorem parse_stations_nothing_to_read_witness:
  "first_table header_only_page = Some (element ''table'' [table_row ''th'' [''Station'', ''AQI'', ''Level'']])
   \<and> length (find_all [ascii ''tr''] (element ''table'' [table_row ''th'' [''Station'', ''AQI'', ''Level'']])) = 1
   \<and> parse_stations (website [] [(header_only_markup, header_only_page)]) (Some header_only_markup) (ascii ''X'')
        = ([], [TableTooShort (ascii ''X'')])
   \<and> first_table (document [words ''closed'']) = None
   \<and> parse_stations (website [] [(ascii ''closed'', document [words ''closed''])]) (Some (ascii ''closed'')) (ascii ''X'')
        = ([], [NoTable (ascii ''X'')])
   \<and> parse_stations (website [] []) (Some []) (ascii ''X'') = ([], [EmptyStationHtml (ascii ''X'')])
   \<and> parse_stations (website [] []) None (ascii ''X'') = ([], [EmptyStationHtml (ascii ''X'')])"
proof -
  let ?ext = "website [] [(header_only_markup, header_only_page)]"
  have "\<exists>markup soup. Some header_only_markup = Some markup \<and> BeautifulSoup ?ext markup = Inr soup \<and>
        (case first_table soup of None \<Rightarrow> True
         | Some table \<Rightarrow> length (find_all [ascii ''tr''] table) \<le> 1)"
    by (simp add: page_simps search_simps header_only_markup_def header_only_page_def)
  then have "fst (parse_stations ?ext (Some header_only_markup) (ascii ''X'')) = []"
    by (intro parse_stations_nothing_to_read) blast
  then show ?thesis
    by (simp add: page_simps search_simps stations_simps header_only_markup_def header_only_page_def)
qed

section \<open>parse_stations: one station for each data row\<close>

lemma stations_of_rows_eq:
  "stations_of_rows hs rows acc =
     acc @ map (\<lambda>row. station_of_row hs (find_all [ascii ''td''] row)) (data_rows rows)"
  by (induction rows arbitrary: acc) (auto simp: data_rows_def cells_def)

lemma parse_stations_rows:
  assumes "markup \<noteq> []" "BeautifulSoup ext markup = Inr soup" "first_table soup = Some table"
    and "find_all [ascii ''tr''] table = header_row # rows"
  shows "fst (parse_stations ext (Some markup) city_name) =
     map (\<lambda>row. station_of_row (map cell (find_all [ascii ''th'', ascii ''td''] header_row))
                  (find_all [ascii ''td''] row)) (data_rows rows)"
proof (cases rows)
  case Nil
  with assms show ?thesis
    by (simp add: parse_stations_def parse_stations_try_def stations_of_soup_def first_table_def
        data_rows_def split: list.splits)
next
  case (Cons r rs)
  with assms show ?thesis
    by (simp add: parse_stations_def parse_stations_try_def stations_of_soup_def first_table_def
        stations_of_rows_eq split: list.splits)
qed

lemma list_all2_map_right: "(\<And>x. x \<in> set xs \<Longrightarrow> P x (f x)) \<Longrightarrow> list_all2 P xs (map f xs)"
  by (induction xs) auto

subsection \<open>The default column names\<close>

lemma fill_station_no_headers: "fill_station [] i cols d = d"
  by (induction cols arbitrary: i d) auto

lemma station_of_row_default:
  assumes "3 \<le> length (find_all [ascii ''td''] row)"
  shows "station_of_row [] (find_all [ascii ''td''] row) =
     [(k_station, cells row ! 0), (k_aqi, cells row ! 1), (k_level, cells row ! 2),
      (k_pm25, if 3 < length (cells row) then cells row ! 3 else not_available),
      (k_pm10, if 4 < length (cells row) then cells row ! 4 else not_available),
      (k_pollutant, if 5 < length (cells row) then cells row ! 5 else not_available)]"
proof -
  let ?cols = "find_all [ascii ''td''] row"
  have nth: "map cell ?cols ! i = cell (?cols ! i)" if "i < length ?cols" for i
    using that by simp
  have "map cell ?cols ! 0 = cell (?cols ! 0)" "map cell ?cols ! 1 = cell (?cols ! 1)"
    "map cell ?cols ! 2 = cell (?cols ! 2)"
    using assms by (auto intro!: nth)
  then show ?thesis
    by (simp add: station_of_row_def fill_station_no_headers default_station_def cells_def)
qed

text \<open>
  C3. When the first row of the first table has no \<^verbatim>\<open>th\<close> or \<^verbatim>\<open>td\<close> cell, so that
  \<^verbatim>\<open>headers\<close> is empty, \<^verbatim>\<open>parse_stations\<close> returns one station for each later row
  with at least three \<^verbatim>\<open>td\<close> cells, in order, and each is the dictionary of the six
  fixed keys: station, AQI and level from the cells 0 to 2, and PM2.5, PM10 and primary
  pollutant from the cells 3 to 5, \<^verbatim>\<open>N/A\<close> standing for a cell the row does not have.
\<close>

theorem parse_stations_fixed_columns:
  assumes "markup \<noteq> []" "BeautifulSoup ext markup = Inr soup" "first_table soup = Some table"
    and "find_all [ascii ''tr''] table = header_row # rows"
    and "find_all [ascii ''th'', ascii ''td''] header_row = []"
  shows "list_all2
     (\<lambda>row station. station =
        [(k_station, cells row ! 0), (k_aqi, cells row ! 1), (k_level, cells row ! 2),
         (k_pm25, if 3 < length (cells row) then cells row ! 3 else not_available),
         (k_pm10, if 4 < length (cells row) then cells row ! 4 else not_available),
         (k_pollutant, if 5 < length (cells row) then cells row ! 5 else not_available)])
     (data_rows rows) (fst (parse_stations ext (Some markup) city_name))"
  unfolding parse_stations_rows [OF assms(1-4)] assms(5)
  by (rule list_all2_map_right)
    (simp add: data_rows_def cells_def station_of_row_default [unfolded cells_def])

theorem parse_stations_fixed_columns_witness:
  "map cells (data_rows bare_rows) =
     [[ascii ''S1'', ascii ''50'', ascii ''Good''],
      [ascii ''S3'', ascii ''90'', ascii ''Fair'', ascii ''60'', ascii ''80'', ascii ''PM10'']]
   \<and> fst (parse_stations (website [] [(bare_markup, bare_page)]) (Some bare_markup) (ascii ''X'')) =
     [[(k_station, ascii ''S1''), (k_aqi, ascii ''50''), (k_level, ascii ''Good''),
       (k_pm25, ascii ''N/A''), (k_pm10, ascii ''N/A''), (k_pollutant, ascii ''N/A'')],
      [(k_station, ascii ''S3''), (k_aqi, ascii ''90''), (k_level, ascii ''Fair''),
       (k_pm25, ascii ''60''), (k_pm10, ascii ''80''), (k_pollutant, ascii ''PM10'')]]"
proof -
  let ?ext = "website [] [(bare_markup, bare_page)]"
  let ?table = "element ''table'' (table_row ''th'' [] # bare_rows)"
  have 1: "bare_markup \<noteq> []"
    by (simp add: bare_markup_def ascii_def)
  have 2: "BeautifulSoup ?ext bare_markup = Inr bare_page"
    by (simp add: page_simps)
  have 3: "first_table bare_page = Some ?table"
    by (simp add: page_simps search_simps bare_page_def bare_rows_def)
  have 4: "find_all [ascii ''tr''] ?table = table_row ''th'' [] # bare_rows"
    by (simp add: page_simps search_simps bare_rows_def)
  have 5: "find_all [ascii ''th'', ascii ''td''] (table_row ''th'' []) = []"
    by (simp add: page_simps search_simps)
  have rows: "map cells (data_rows bare_rows) =
     [[ascii ''S1'', ascii ''50'', ascii ''Good''],
      [ascii ''S3'', ascii ''90'', ascii ''Fair'', ascii ''60'', ascii ''80'', ascii ''PM10'']]"
    by (simp add: page_simps search_simps bare_rows_def)
  from parse_stations_fixed_columns [OF 1 2 3 4 5, of "ascii ''X''"] rows
  show ?thesis
    by (simp add: page_simps search_simps bare_rows_def not_available_def list_all2_Cons1)
qed

subsection \<open>Columns named by the header row\<close>

lemma fill_station_fold:
  "fill_station hs i cols d =
     fold (\<lambda>p. AList.update (fst p) (cell (snd p))) (zip (drop i hs) cols) d"
proof (induction cols arbitrary: i d)
  case Nil
  then show ?case by simp
next
  case (Cons col cols)
  show ?case
  proof (cases "i < length hs")
    case True
    then have "drop i hs = hs ! i # drop (Suc i) hs"
      by (simp add: Cons_nth_drop_Suc)
    with True Cons show ?thesis by simp
  next
    case False
    with Cons show ?thesis by simp
  qed
qed

lemma fold_update_other:
  "k \<notin> fst ` set ps \<Longrightarrow>
   map_of (fold (\<lambda>p. AList.update (fst p) (g (snd p))) ps d) k = map_of d k"
  by (induction ps arbitrary: d) (auto simp: update_conv')

lemma fold_update_last:
  assumes "i < length ps"
    and "\<forall>j. i < j \<and> j < length ps \<longrightarrow> fst (ps ! j) \<noteq> fst (ps ! i)"
  shows "map_of (fold (\<lambda>p. AList.update (fst p) (g (snd p))) ps d) (fst (ps ! i))
     = Some (g (snd (ps ! i)))"
  using assms
proof (induction ps arbitrary: i d)
  case Nil
  then show ?case by simp
next
  case (Cons p ps)
  show ?case
  proof (cases i)
    case 0
    have "fst p \<notin> fst ` set ps"
    proof
      assume "fst p \<in> fst ` set ps"
      then obtain q where "q \<in> set ps" "fst q = fst p" by auto
      then obtain j where "j < length ps" "ps ! j = q" by (auto simp: in_set_conv_nth)
      with Cons.prems(2) 0 \<open>fst q = fst p\<close> show False
        by (auto dest: spec [where x = "Suc j"])
    qed
    with 0 show ?thesis
      by (simp add: fold_update_other update_conv')
  next
    case (Suc i')
    with Cons.prems have "i' < length ps"
      and "\<forall>j. i' < j \<and> j < length ps \<longrightarrow> fst (ps ! j) \<noteq> fst (ps ! i')"
      by auto
    from Cons.IH [OF this] Suc show ?thesis by simp
  qed
qed

lemma fold_update_distinct:
  "distinct (map fst d) \<Longrightarrow>
   distinct (map fst (fold (\<lambda>p. AList.update (fst p) (g (snd p))) ps d))"
  by (induction ps arbitrary: d) (auto simp: distinct_update)

lemma fold_update_keys:
  "fst ` set (fold (\<lambda>p. AList.update (fst p) (g (snd p))) ps d) = fst ` set ps \<union> fst ` set d"
  by (induction ps arbitrary: d) (auto simp: dom_update)

lemma fold_update_nonempty:
  "ps \<noteq> [] \<Longrightarrow> fold (\<lambda>p. AList.update (fst p) (g (snd p))) ps d \<noteq> []"
  using fold_update_keys [of g ps d] by (cases ps) auto

lemma station_of_row_headers:
  assumes "hs \<noteq> []" "cols \<noteq> []"
  shows "station_of_row hs cols = fold (\<lambda>p. AList.update (fst p) (cell (snd p))) (zip hs cols) []"
proof -
  from assms have "zip hs cols \<noteq> []" by (cases hs; cases cols) auto
  then show ?thesis
    by (simp add: station_of_row_def fill_station_fold Let_def fold_update_nonempty)
qed

lemma station_of_row_last_column:
  assumes "hs \<noteq> []" "cols \<noteq> []" "i < length hs" "i < length cols"
    and "\<forall>j. i < j \<and> j < length hs \<and> j < length cols \<longrightarrow> hs ! j \<noteq> hs ! i"
  shows "map_of (station_of_row hs cols) (hs ! i) = Some (cell (cols ! i))"
  using fold_update_last [of i "zip hs cols" cell "[]"] assms
  by (simp add: station_of_row_headers)

lemma station_of_row_size:
  assumes "hs \<noteq> []" "cols \<noteq> []"
  shows "distinct (map fst (station_of_row hs cols))"
    and "length (station_of_row hs cols) \<le> card (set hs)"
proof -
  let ?r = "station_of_row hs cols"
  show d: "distinct (map fst ?r)"
    using assms by (simp add: station_of_row_headers fold_update_distinct)
  have "set (map fst ?r) \<subseteq> set hs"
    using assms fold_update_keys [of cell "zip hs cols" "[]"]
    by (auto simp: station_of_row_headers dest: set_zip_leftD)
  then have "card (set (map fst ?r)) \<le> card (set hs)"
    by (simp add: card_mono)
  with d show "length ?r \<le> card (set hs)"
    by (metis distinct_card length_map)
qed

text \<open>
  C9. When the header row gives at least one label, every station returned is built from
  the header: its keys are pairwise different and no more than the different labels of
  the header, and a label maps to the text of the last cell of the row that stands under
  it, among the cells within the length of the header. A label that stands in several
  columns therefore keeps the text of the last of them.
\<close>

theorem parse_stations_repeated_header:
  assumes "markup \<noteq> []" "BeautifulSoup ext markup = Inr soup" "first_table soup = Some table"
    and "find_all [ascii ''tr''] table = header_row # rows"
    and "headers = map cell (find_all [ascii ''th'', ascii ''td''] header_row)"
    and "headers \<noteq> []"
  shows "list_all2
     (\<lambda>row station.
        distinct (map fst station) \<and> length station \<le> card (set headers) \<and>
        (\<forall>i. i < length headers \<and> i < length (cells row) \<and>
             (\<forall>j. i < j \<and> j < length headers \<and> j < length (cells row)
                  \<longrightarrow> headers ! j \<noteq> headers ! i)
           \<longrightarrow> map_of station (headers ! i) = Some (cells row ! i)))
     (data_rows rows) (fst (parse_stations ext (Some markup) city_name))"
  unfolding parse_stations_rows [OF assms(1-4)] assms(5) [symmetric]
proof (rule list_all2_map_right)
  fix row
  assume "row \<in> set (data_rows rows)"
  then have cols: "find_all [ascii ''td''] row \<noteq> []"
    by (auto simp: data_rows_def cells_def)
  let ?cols = "find_all [ascii ''td''] row"
  from station_of_row_size [OF assms(6) cols] station_of_row_last_column [OF assms(6) cols]
  show "distinct (map fst (station_of_row headers ?cols)) \<and>
        length (station_of_row headers ?cols) \<le> card (set headers) \<and>
        (\<forall>i. i < length headers \<and> i < length (cells row) \<and>
             (\<forall>j. i < j \<and> j < length headers \<and> j < length (cells row)
                  \<longrightarrow> headers ! j \<noteq> headers ! i)
           \<longrightarrow> map_of (station_of_row headers ?cols) (headers ! i) = Some (cells row ! i))"
    by (simp add: cells_def)
qed

theorem parse_stations_repeated_header_witness:
  "map cells (data_rows twice_rows) = [[ascii ''S1'', ascii ''50'', ascii ''60'']]
   \<and> fst (parse_stations (website [] [(twice_markup, twice_page)]) (Some twice_markup) (ascii ''X''))
       = [[(ascii ''Station'', ascii ''S1''), (ascii ''AQI'', ascii ''60'')]]
   \<and> list_all2 (\<lambda>row station. map_of station (ascii ''AQI'') = Some (cells row ! 2) \<and> length station \<le> 2)
       (data_rows twice_rows)
       (fst (parse_stations (website [] [(twice_markup, twice_page)]) (Some twice_markup) (ascii ''X'')))"
proof -
  let ?ext = "website [] [(twice_markup, twice_page)]"
  let ?header = "table_row ''th'' [''Station'', ''AQI'', ''AQI'']"
  let ?table = "element ''table'' (?header # twice_rows)"
  let ?headers = "[ascii ''Station'', ascii ''AQI'', ascii ''AQI'']"
  have 1: "twice_markup \<noteq> []"
    by (simp add: twice_markup_def ascii_def)
  have 2: "BeautifulSoup ?ext twice_markup = Inr twice_page"
    by (simp add: page_simps)
  have 3: "first_table twice_page = Some ?table"
    by (simp add: page_simps search_simps twice_page_def twice_rows_def)
  have 4: "find_all [ascii ''tr''] ?table = ?header # twice_rows"
    by (simp add: page_simps search_simps twice_rows_def)
  have 5: "?headers = map cell (find_all [ascii ''th'', ascii ''td''] ?header)"
    by (simp add: page_simps search_simps)
  have 6: "?headers \<noteq> []"
    by simp
  have rows: "map cells (data_rows twice_rows) = [[ascii ''S1'', ascii ''50'', ascii ''60'']]"
    by (simp add: page_simps search_simps twice_rows_def)
  have card: "card (set ?headers) = 2"
    by (simp add: ascii_def card_insert_if)
  have val: "fst (parse_stations ?ext (Some twice_markup) (ascii ''X''))
       = [[(ascii ''Station'', ascii ''S1''), (ascii ''AQI'', ascii ''60'')]]"
    by (simp add: page_simps search_simps stations_simps twice_markup_def twice_page_def twice_rows_def)
  have "list_all2 (\<lambda>row station. map_of station (ascii ''AQI'') = Some (cells row ! 2) \<and> length station \<le> 2)
       (data_rows twice_rows) (fst (parse_stations ?ext (Some twice_markup) (ascii ''X'')))"
  proof (rule list.rel_mono_strong [OF parse_stations_repeated_header [OF 1 2 3 4 5 6, of "ascii ''X''"]])
    fix row station
    assume h: "distinct (map fst station) \<and> length station \<le> card (set ?headers) \<and>
        (\<forall>i. i < length ?headers \<and> i < length (cells row) \<and>
             (\<forall>j. i < j \<and> j < length ?headers \<and> j < length (cells row)
                  \<longrightarrow> ?headers ! j \<noteq> ?headers ! i)
           \<longrightarrow> map_of station (?headers ! i) = Some (cells row ! i))"
      and "row \<in> set (data_rows twice_rows)"
    then have len: "length (cells row) = 3"
      by (simp add: page_simps search_simps twice_rows_def)
    from h have "2 < length ?headers \<and> 2 < length (cells row) \<and>
             (\<forall>j. 2 < j \<and> j < length ?headers \<and> j < length (cells row)
                  \<longrightarrow> ?headers ! j \<noteq> ?headers ! 2)
           \<longrightarrow> map_of station (?headers ! 2) = Some (cells row ! 2)"
      by blast
    with len have "map_of station (ascii ''AQI'') = Some (cells row ! 2)"
      by simp
    with h card show "map_of station (ascii ''AQI'') = Some (cells row ! 2) \<and> length station \<le> 2"
      by simp
  qed
  with rows val show ?thesis by blast
qed

section \<open>crawl_phase2: the dictionary of stations\<close>

lemma parse_stations_falsy: "falsy html \<Longrightarrow> fst (parse_stations ext html city_name) = []"
  by (cases html) (simp_all add: parse_stations_def)

text \<open>
  One pass of the loop stores the stations of the city when its visit obtained some, and
  leaves the dictionary alone otherwise; what it does to the world does not depend on the
  dictionary.
\<close>

lemma crawl_city_eq:
  "crawl_city ext n i c (m, w) =
     ((case city_outcome ext n i c w of None \<Rightarrow> m
       | Some stations \<Rightarrow> AList.update (fst c) stations m),
      snd (crawl_city ext n i c ([], w)))"
proof (cases c)
  case (Pair city_name city_url)
  obtain html w1 where g: "get_html ext (urljoin ext base_url city_url) 0
      (say (Progress i n city_name (urljoin ext base_url city_url)) w) = (html, w1)"
    by (cases "get_html ext (urljoin ext base_url city_url) 0
      (say (Progress i n city_name (urljoin ext base_url city_url)) w)")
  show ?thesis
  proof (cases html)
    case None
    with Pair g show ?thesis by (simp add: crawl_city_def city_outcome_def)
  next
    case (Some markup)
    obtain stations msgs where p: "parse_stations ext (Some markup) city_name = (stations, msgs)"
      by (cases "parse_stations ext (Some markup) city_name")
    have "markup = [] \<Longrightarrow> stations = []"
      using p parse_stations_falsy [of "Some markup" ext city_name] by simp
    with Pair g Some p show ?thesis
      by (auto simp: crawl_city_def city_outcome_def)
  qed
qed

lemma successes_keys:
  "(name, stations) \<in> set (successes outs) \<longleftrightarrow> (name, Some stations) \<in> set outs"
  by (induction outs rule: successes.induct) auto

lemma crawl_loop_map_of:
  "map_of (fst (crawl_loop ext n i cs (m, w))) =
     map_of m ++ map_of (rev (successes (outcomes ext n i cs w)))"
proof (induction cs arbitrary: i m w)
  case Nil
  then show ?case by simp
next
  case (Cons c cs)
  show ?case
  proof (cases "city_outcome ext n i c w")
    case None
    then show ?thesis by (simp add: crawl_city_eq [of ext n i c m w] Cons.IH)
  next
    case (Some stations)
    then show ?thesis
      by (auto simp: crawl_city_eq [of ext n i c m w] Cons.IH update_conv' map_add_def fun_eq_iff
          split: option.splits)
  qed
qed

lemma crawl_loop_distinct:
  "distinct (map fst m) \<Longrightarrow> distinct (map fst (fst (crawl_loop ext n i cs (m, w))))"
proof (induction cs arbitrary: i m w)
  case Nil
  then show ?case by simp
next
  case (Cons c cs)
  then show ?case
    by (simp add: crawl_city_eq [of ext n i c m w] distinct_update split: option.splits)
qed

lemma outcomes_names: "map fst (outcomes ext n i cs w) = map fst cs"
  by (induction cs arbitrary: i w) auto

text \<open>The last visit of a name that obtained stations decides what the name maps to.\<close>

lemma last_success:
  assumes "j < length outs" "snd (outs ! j) = Some stations"
    and "\<forall>l. j < l \<and> l < length outs \<and> fst (outs ! l) = fst (outs ! j) \<longrightarrow> snd (outs ! l) = None"
  shows "map_of (rev (successes outs)) (fst (outs ! j)) = Some stations"
  using assms
proof (induction outs arbitrary: j rule: successes.induct)
  case 1
  then show ?case by simp
next
  case (2 name outs)
  then obtain j' where j: "j = Suc j'" by (cases j) auto
  with 2 have "map_of (rev (successes outs)) (fst (outs ! j')) = Some stations"
    by (intro "2.IH") auto
  with j show ?case by simp
next
  case (3 name s outs)
  show ?case
  proof (cases j)
    case 0
    have "name \<notin> fst ` set (successes outs)"
    proof
      assume "name \<in> fst ` set (successes outs)"
      then obtain st where "(name, Some st) \<in> set outs"
        by (auto simp: successes_keys)
      then obtain l where "l < length outs" "outs ! l = (name, Some st)"
        by (auto simp: in_set_conv_nth)
      with "3.prems"(3) 0 show False
        by (auto dest: spec [where x = "Suc l"])
    qed
    then have "map_of (rev (successes outs)) name = None"
      by (simp add: map_of_eq_None_iff)
    with 0 "3.prems" show ?thesis by (simp add: map_add_def)
  next
    case (Suc j')
    with 3 have "map_of (rev (successes outs)) (fst (outs ! j')) = Some stations"
      by (intro "3.IH") auto
    with Suc show ?thesis by (simp add: map_add_def)
  qed
qed

lemma crawl_phase2_eq:
  "cities \<noteq> [] \<Longrightarrow>
   crawl_phase2 ext cities w =
     (Some (fst (crawl_loop ext (length cities) 1 cities
        ([], say (CrawlingAll (length cities)) (say ResultsHeading (say Phase2Banner w))))),
      snd (crawl_loop ext (length cities) 1 cities
        ([], say (CrawlingAll (length cities)) (say ResultsHeading (say Phase2Banner w)))))"
  by (simp add: crawl_phase2_def split: prod.splits)

lemma crawl_phase2_map_of:
  "map_of (fst (crawl_loop ext (length cities) 1 cities
        ([], say (CrawlingAll (length cities)) (say ResultsHeading (say Phase2Banner w))))) =
   map_of (rev (successes (phase2_outcomes ext cities w)))"
  by (simp add: crawl_loop_map_of phase2_outcomes_def)

lemma phase2_outcomes_names: "map fst (phase2_outcomes ext cities w) = map fst cities"
  by (simp add: phase2_outcomes_def outcomes_names)

lemmas fetch_simps = get_html_retry get_html_give_up get_html_success failed_def failure_report_def
  max_retries_def base_url_def

lemmas crawl_simps = crawl_phase2_def crawl_city_def city_outcome_def phase2_outcomes_def
  say_def says_def




text \<open>
  C10. In a run of \<^verbatim>\<open>crawl_phase2\<close> the dictionary returned has one entry for a name,
  and a name maps to the stations of the last city of that name whose visit obtained
  some: an earlier city of the same name, visited with success, has been overwritten.
\<close>

theorem crawl_phase2_last_occurrence:
  assumes "j < length cities"
    and "snd (phase2_outcomes ext cities w ! j) = Some stations"
    and "\<forall>l. j < l \<and> l < length cities \<and> fst (cities ! l) = fst (cities ! j)
           \<longrightarrow> snd (phase2_outcomes ext cities w ! l) = None"
  shows "\<exists>all_stations w'. crawl_phase2 ext cities w = (Some all_stations, w') \<and>
     distinct (map fst all_stations) \<and>
     map_of all_stations (fst (cities ! j)) = Some stations"
proof -
  let ?outs = "phase2_outcomes ext cities w"
  let ?all = "fst (crawl_loop ext (length cities) 1 cities
        ([], say (CrawlingAll (length cities)) (say ResultsHeading (say Phase2Banner w))))"
  from assms(1) have nonempty: "cities \<noteq> []" by auto
  note names = phase2_outcomes_names [of ext cities w]
  then have len: "length ?outs = length cities"
    by (metis length_map)
  have name_at: "fst (?outs ! l) = fst (cities ! l)" if "l < length cities" for l
    using that names len by (metis nth_map)
  have "\<forall>l. j < l \<and> l < length ?outs \<and> fst (?outs ! l) = fst (?outs ! j)
      \<longrightarrow> snd (?outs ! l) = None"
    using assms(1,3) name_at len by auto
  from last_success [OF _ assms(2) this] assms(1) len name_at
  have "map_of (rev (successes ?outs)) (fst (cities ! j)) = Some stations"
    by simp
  then have "map_of ?all (fst (cities ! j)) = Some stations"
    by (simp only: crawl_phase2_map_of)
  moreover have "distinct (map fst ?all)"
    by (rule crawl_loop_distinct) simp
  ultimately show ?thesis
    using crawl_phase2_eq [OF nonempty, of ext w] by blast
qed

theorem crawl_phase2_last_occurrence_witness:
  "phase2_outcomes
      (website [(base_url @ ascii ''/a'', station_markup), (base_url @ ascii ''/b'', twice_markup)]
         [(station_markup, station_page), (twice_markup, twice_page)])
      [(ascii ''X'', ascii ''/a''), (ascii ''X'', ascii ''/b'')] start =
     [(ascii ''X'', Some [[(ascii ''Station'', ascii ''StationX''), (ascii ''AQI'', ascii ''50''),
                           (ascii ''Level'', ascii ''Good'')]]),
      (ascii ''X'', Some [[(ascii ''Station'', ascii ''S1''), (ascii ''AQI'', ascii ''60'')]])]
   \<and> fst (crawl_phase2
      (website [(base_url @ ascii ''/a'', station_markup), (base_url @ ascii ''/b'', twice_markup)]
         [(station_markup, station_page), (twice_markup, twice_page)])
      [(ascii ''X'', ascii ''/a''), (ascii ''X'', ascii ''/b'')] start) =
     Some [(ascii ''X'', [[(ascii ''Station'', ascii ''S1''), (ascii ''AQI'', ascii ''60'')]])]"
proof -
  let ?ext = "website [(base_url @ ascii ''/a'', station_markup), (base_url @ ascii ''/b'', twice_markup)]
         [(station_markup, station_page), (twice_markup, twice_page)]"
  let ?cities = "[(ascii ''X'', ascii ''/a''), (ascii ''X'', ascii ''/b'')]"
  let ?later = "[[(ascii ''Station'', ascii ''S1''), (ascii ''AQI'', ascii ''60'')]]"
  have outs: "phase2_outcomes ?ext ?cities start =
     [(ascii ''X'', Some [[(ascii ''Station'', ascii ''StationX''), (ascii ''AQI'', ascii ''50''),
                           (ascii ''Level'', ascii ''Good'')]]),
      (ascii ''X'', Some ?later)]"
    by (simp add: crawl_simps fetch_simps page_simps search_simps stations_simps
        station_markup_def station_page_def twice_markup_def twice_page_def twice_rows_def)
  have 1: "1 < length ?cities"
    by simp
  have 2: "snd (phase2_outcomes ?ext ?cities start ! 1) = Some ?later"
    by (simp add: outs)
  have 3: "\<forall>l. 1 < l \<and> l < length ?cities \<and> fst (?cities ! l) = fst (?cities ! 1)
           \<longrightarrow> snd (phase2_outcomes ?ext ?cities start ! l) = None"
    by auto
  have val: "fst (crawl_phase2 ?ext ?cities start) = Some [(ascii ''X'', ?later)]"
    by (simp add: crawl_simps fetch_simps page_simps search_simps stations_simps
        station_markup_def station_page_def twice_markup_def twice_page_def twice_rows_def)
  from crawl_phase2_last_occurrence [OF 1 2 3] outs val
  show ?thesis by blast
qed

end
